theory Spec2Isabelle
  imports Main "HOL-Library.AList"
begin

section \<open>Data model\<close>

text \<open>
  Timestamps and durations are JavaScript numbers holding whole milliseconds
  (\<^verbatim>\<open>Date.now()\<close>), which are exact far beyond any clock reading; they are modelled as
  \<open>int\<close>.  Strings are \<open>string\<close>.  An optional field or parameter (\<^verbatim>\<open>x?: T\<close>) is an
  \<open>option\<close>; JavaScript's truthiness test on an optional string (\<^verbatim>\<open>if (x)\<close>) is \<open>truthy\<close>:
  absent and the empty string are both false.  A request runs to its end without
  another request interleaving.
\<close>

definition truthy :: "string option \<Rightarrow> bool" where
  "truthy x = (case x of None \<Rightarrow> False | Some s \<Rightarrow> s \<noteq> [])"

text \<open>
  Modelled from the spec: the type declarations \<^verbatim>\<open>ProviderTokens\<close>, \<^verbatim>\<open>RsRecord\<close> and
  \<^verbatim>\<open>Transaction\<close> of the storage interface, which the sources import but do not contain.
  The fields are those of the spec's data model, with the optionality that the code's
  reads (\<^verbatim>\<open>?.\<close>, \<^verbatim>\<open>??\<close>) and the flow's own result type show.

  \<^verbatim>\<open>ProviderTokens\<close>: access token, optional refresh token, optional expiry, optional scopes.
\<close>

record ProviderTokens =
  access_token :: string
  refresh_token :: "string option"
  expires_at :: "int option"
  scopes :: "string list option"

text \<open>
  \<^verbatim>\<open>RsRecord\<close>, and the in-memory store's \<^verbatim>\<open>RsRecord & { expiresAt: number }\<close> as its
  extension.
\<close>

record RsRecord =
  rs_access_token :: string
  rs_refresh_token :: string
  provider :: ProviderTokens
  created_at :: int

record RsEntry = RsRecord +
  expiresAt :: int

text \<open>
  \<^verbatim>\<open>Transaction\<close> (fields \<^verbatim>\<open>createdAt\<close> and \<^verbatim>\<open>provider\<close> carry a prefix here, the names
  being taken by the other records) and \<^verbatim>\<open>TimedEntry<T>\<close>.
\<close>

record Transaction =
  codeChallenge :: string
  state :: "string option"
  txnCreatedAt :: int
  scope :: "string option"
  sid :: "string option"
  txnProvider :: "ProviderTokens option"

record 'a TimedEntry =
  entryValue :: 'a
  entryExpiresAt :: int
  createdAt :: int

definition DEFAULT_TXN_TTL_MS :: int where
  "DEFAULT_TXN_TTL_MS = 10 * 60 * 1000"

definition DEFAULT_CODE_TTL_MS :: int where
  "DEFAULT_CODE_TTL_MS = 10 * 60 * 1000"

definition DEFAULT_RS_TOKEN_TTL_MS :: int where
  "DEFAULT_RS_TOKEN_TTL_MS = 7 * 24 * 60 * 60 * 1000"

definition MAX_RS_RECORDS :: nat where
  "MAX_RS_RECORDS = 10000"

definition MAX_TRANSACTIONS :: nat where
  "MAX_TRANSACTIONS = 1000"

section \<open>JavaScript \<^verbatim>\<open>Map\<close>\<close>

text \<open>
  A \<^verbatim>\<open>Map\<close> keeps its entries in insertion order, one per key: an association list.
  \<^verbatim>\<open>set\<close> on a key already present keeps the entry's position, \<^verbatim>\<open>set\<close> on a new key
  appends, \<^verbatim>\<open>delete\<close> removes the entry, \<^verbatim>\<open>size\<close> is the number of entries.
\<close>

type_synonym ('k, 'v) jsmap = "('k \<times> 'v) list"

definition map_get :: "('k, 'v) jsmap \<Rightarrow> 'k \<Rightarrow> 'v option" where
  "map_get m k = map_of m k"

definition map_set :: "'k \<Rightarrow> 'v \<Rightarrow> ('k, 'v) jsmap \<Rightarrow> ('k, 'v) jsmap" where
  "map_set k v m = AList.update k v m"

definition map_delete :: "'k \<Rightarrow> ('k, 'v) jsmap \<Rightarrow> ('k, 'v) jsmap" where
  "map_delete k m = AList.delete k m"

definition map_size :: "('k, 'v) jsmap \<Rightarrow> nat" where
  "map_size m = length m"

text \<open>
  \<^verbatim>\<open>evictOldest(map, maxSize, countToRemove)\<close>.  The source reads the creation time
  through \<^verbatim>\<open>created_at ?? createdAt ?? 0\<close>; the accessor \<open>createdOf\<close> stands for that.
  \<^verbatim>\<open>Array.prototype.sort\<close> is stable, as \<open>sort_key\<close> is.
\<close>

definition evictOldest ::
  "('v \<Rightarrow> int) \<Rightarrow> ('k, 'v) jsmap \<Rightarrow> nat \<Rightarrow> nat \<Rightarrow> ('k, 'v) jsmap" where
  "evictOldest createdOf m maxSize countToRemove =
     (if map_size m < maxSize then m
      else let entries = sort_key (\<lambda>e. createdOf (snd e)) m
           in fold (\<lambda>e acc. map_delete (fst e) acc) (take countToRemove entries) m)"

section \<open>The in-memory token store\<close>

text \<open>
  \<^verbatim>\<open>rsAccessMap\<close> and \<^verbatim>\<open>rsRefreshMap\<close> hold references to the same mutable record
  objects, so the objects live in \<open>heap\<close>, addressed by \<open>nat\<close>, and the maps hold
  addresses.  \<open>nextRef\<close> is the next unused address.  Transactions and codes are
  stored in fresh wrapper objects that the store never mutates: they are kept by value.
\<close>

record MemoryTokenStore =
  heap :: "nat \<Rightarrow> RsEntry"
  nextRef :: nat
  rsAccessMap :: "(string, nat) jsmap"
  rsRefreshMap :: "(string, nat) jsmap"
  transactions :: "(string, Transaction TimedEntry) jsmap"
  codes :: "(string, string TimedEntry) jsmap"

text \<open>
  \<^verbatim>\<open>storeRsMapping(rsAccess, provider, rsRefresh?, ttlMs)\<close> at clock reading \<open>now\<close>;
  \<open>uuid\<close> is what \<^verbatim>\<open>crypto.randomUUID()\<close> would return.  The result is the address of the
  returned record and the new store.
\<close>

definition storeRsMapping ::
  "string \<Rightarrow> ProviderTokens \<Rightarrow> string option \<Rightarrow> int \<Rightarrow> int \<Rightarrow> string
     \<Rightarrow> MemoryTokenStore \<Rightarrow> nat \<times> MemoryTokenStore" where
  "storeRsMapping rsAccess prov rsRefresh ttlMs now uuid st =
     (let expAt = now + ttlMs;
          st1 = st\<lparr>rsAccessMap :=
                   evictOldest (\<lambda>r. created_at (heap st r)) (rsAccessMap st) MAX_RS_RECORDS 10\<rparr>
      in case (case rsRefresh of
                 None \<Rightarrow> None
               | Some s \<Rightarrow> if s \<noteq> [] then map_get (rsRefreshMap st1) s else None) of
           Some existing \<Rightarrow>
             (let old = heap st1 existing;
                  upd = old\<lparr>rs_access_token := rsAccess, provider := prov, expiresAt := expAt\<rparr>
              in (existing,
                  st1\<lparr>heap := (heap st1)(existing := upd),
                      rsAccessMap :=
                        map_set rsAccess existing
                          (map_delete (rs_access_token old) (rsAccessMap st1))\<rparr>))
         | None \<Rightarrow>
             (let r = nextRef st1;
                  rec = \<lparr>rs_access_token = rsAccess,
                         rs_refresh_token = (case rsRefresh of Some s \<Rightarrow> s | None \<Rightarrow> uuid),
                         provider = prov, created_at = now, expiresAt = expAt\<rparr>
              in (r,
                  st1\<lparr>heap := (heap st1)(r := rec),
                      nextRef := Suc r,
                      rsAccessMap := map_set (rs_access_token rec) r (rsAccessMap st1),
                      rsRefreshMap := map_set (rs_refresh_token rec) r (rsRefreshMap st1)\<rparr>)))"

text \<open>\<^verbatim>\<open>getByRsAccess\<close> and \<^verbatim>\<open>getByRsRefresh\<close>: the record's address, or none.\<close>

definition getByRsAccess ::
  "string \<Rightarrow> int \<Rightarrow> MemoryTokenStore \<Rightarrow> nat option \<times> MemoryTokenStore" where
  "getByRsAccess rsAccess now st =
     (case map_get (rsAccessMap st) rsAccess of
        None \<Rightarrow> (None, st)
      | Some e \<Rightarrow>
          if now \<ge> expiresAt (heap st e)
          then (None,
                st\<lparr>rsAccessMap := map_delete rsAccess (rsAccessMap st),
                   rsRefreshMap := map_delete (rs_refresh_token (heap st e)) (rsRefreshMap st)\<rparr>)
          else (Some e, st))"

definition getByRsRefresh ::
  "string \<Rightarrow> int \<Rightarrow> MemoryTokenStore \<Rightarrow> nat option \<times> MemoryTokenStore" where
  "getByRsRefresh rsRefresh now st =
     (case map_get (rsRefreshMap st) rsRefresh of
        None \<Rightarrow> (None, st)
      | Some e \<Rightarrow>
          if now \<ge> expiresAt (heap st e)
          then (None,
                st\<lparr>rsAccessMap := map_delete (rs_access_token (heap st e)) (rsAccessMap st),
                   rsRefreshMap := map_delete rsRefresh (rsRefreshMap st)\<rparr>)
          else (Some e, st))"

text \<open>\<^verbatim>\<open>updateByRsRefresh(rsRefresh, provider, maybeNewRsAccess?, ttlMs)\<close> at clock reading \<open>now\<close>.\<close>

definition updateByRsRefresh ::
  "string \<Rightarrow> ProviderTokens \<Rightarrow> string option \<Rightarrow> int \<Rightarrow> int
     \<Rightarrow> MemoryTokenStore \<Rightarrow> nat option \<times> MemoryTokenStore" where
  "updateByRsRefresh rsRefresh prov maybeNewRsAccess ttlMs now st =
     (case map_get (rsRefreshMap st) rsRefresh of
        None \<Rightarrow> (None, st)
      | Some r \<Rightarrow>
          (let rec0 = heap st r;
               am1 = (if truthy maybeNewRsAccess
                      then map_delete (rs_access_token rec0) (rsAccessMap st)
                      else rsAccessMap st);
               rec1 = (case maybeNewRsAccess of
                         None \<Rightarrow> rec0
                       | Some a \<Rightarrow>
                           if a \<noteq> [] then rec0\<lparr>rs_access_token := a, created_at := now\<rparr>
                           else rec0);
               rec2 = rec1\<lparr>provider := prov, expiresAt := now + ttlMs\<rparr>
           in (Some r,
               st\<lparr>heap := (heap st)(r := rec2),
                  rsAccessMap := map_set (rs_access_token rec2) r am1,
                  rsRefreshMap := map_set rsRefresh r (rsRefreshMap st)\<rparr>)))"

text \<open>What a caller reads through a returned reference: the record object's current value.\<close>

definition deref :: "MemoryTokenStore \<Rightarrow> nat option \<Rightarrow> RsEntry option" where
  "deref st r = map_option (heap st) r"

text \<open>
  Transactions and codes.  \<^verbatim>\<open>ttlSeconds ? ttlSeconds * 1000 : DEFAULT\<close> takes the default for
  an absent or zero \<^verbatim>\<open>ttlSeconds\<close>.
\<close>

definition ttlMsOf :: "int option \<Rightarrow> int \<Rightarrow> int" where
  "ttlMsOf ttlSeconds dflt =
     (case ttlSeconds of None \<Rightarrow> dflt | Some s \<Rightarrow> if s = 0 then dflt else s * 1000)"

definition saveTransaction ::
  "string \<Rightarrow> Transaction \<Rightarrow> int option \<Rightarrow> int \<Rightarrow> MemoryTokenStore \<Rightarrow> MemoryTokenStore" where
  "saveTransaction txnId txn ttlSeconds now st =
     (let ttlMs = ttlMsOf ttlSeconds DEFAULT_TXN_TTL_MS;
          evicted = evictOldest createdAt (transactions st) MAX_TRANSACTIONS 10
      in st\<lparr>transactions :=
              map_set txnId \<lparr>entryValue = txn, entryExpiresAt = now + ttlMs, createdAt = now\<rparr>
                evicted\<rparr>)"

definition getTransaction ::
  "string \<Rightarrow> int \<Rightarrow> MemoryTokenStore \<Rightarrow> Transaction option \<times> MemoryTokenStore" where
  "getTransaction txnId now st =
     (case map_get (transactions st) txnId of
        None \<Rightarrow> (None, st)
      | Some entry \<Rightarrow>
          if now \<ge> entryExpiresAt entry
          then (None, st\<lparr>transactions := map_delete txnId (transactions st)\<rparr>)
          else (Some (entryValue entry), st))"

definition deleteTransaction :: "string \<Rightarrow> MemoryTokenStore \<Rightarrow> MemoryTokenStore" where
  "deleteTransaction txnId st = st\<lparr>transactions := map_delete txnId (transactions st)\<rparr>"

definition saveCode ::
  "string \<Rightarrow> string \<Rightarrow> int option \<Rightarrow> int \<Rightarrow> MemoryTokenStore \<Rightarrow> MemoryTokenStore" where
  "saveCode code txnId ttlSeconds now st =
     (let ttlMs = ttlMsOf ttlSeconds DEFAULT_CODE_TTL_MS
      in st\<lparr>codes :=
              map_set code \<lparr>entryValue = txnId, entryExpiresAt = now + ttlMs, createdAt = now\<rparr>
                (codes st)\<rparr>)"

definition getTxnIdByCode ::
  "string \<Rightarrow> int \<Rightarrow> MemoryTokenStore \<Rightarrow> string option \<times> MemoryTokenStore" where
  "getTxnIdByCode code now st =
     (case map_get (codes st) code of
        None \<Rightarrow> (None, st)
      | Some entry \<Rightarrow>
          if now \<ge> entryExpiresAt entry
          then (None, st\<lparr>codes := map_delete code (codes st)\<rparr>)
          else (Some (entryValue entry), st))"

definition deleteCode :: "string \<Rightarrow> MemoryTokenStore \<Rightarrow> MemoryTokenStore" where
  "deleteCode code st = st\<lparr>codes := map_delete code (codes st)\<rparr>"

section \<open>The provider's token endpoint\<close>

text \<open>
  The HTTP exchange with the provider is outside the program.  \<open>FetchResult\<close> is what
  \<^verbatim>\<open>fetch\<close> and the reading of the response come to: a thrown network or parse error, a
  non-2xx response with its status and body, or a 2xx response with its JSON body
  \<open>TokenResponse\<close>.  \<^verbatim>\<open>expires_in\<close> is taken to be a whole number of seconds.
\<close>

record TokenResponse =
  data_access_token :: "string option"
  data_refresh_token :: "string option"
  data_expires_in :: "int option"
  data_scope :: "string option"

datatype FetchResult =
    NetworkError string
  | HttpError nat string
  | HttpOk TokenResponse

text \<open>\<^verbatim>\<open>String(scope || '').split(/\s+/).filter(Boolean)\<close>, for the ASCII white space.\<close>

definition isSpace :: "char \<Rightarrow> bool" where
  "isSpace c = (c \<in> set [CHR 0x20, CHR 0x09, CHR 0x0A, CHR 0x0B, CHR 0x0C, CHR 0x0D])"

fun splitWs :: "string \<Rightarrow> string \<Rightarrow> string list" where
  "splitWs cur [] = (if cur = [] then [] else [rev cur])"
| "splitWs cur (c # cs) =
     (if isSpace c then (if cur = [] then splitWs [] cs else rev cur # splitWs [] cs)
      else splitWs (c # cur) cs)"

definition scopesOf :: "string option \<Rightarrow> string list" where
  "scopesOf sc = splitWs [] (case sc of None \<Rightarrow> [] | Some s \<Rightarrow> s)"

text \<open>\<^verbatim>\<open>xs.join(' ')\<close>.\<close>

fun joinSp :: "string list \<Rightarrow> string" where
  "joinSp [] = []"
| "joinSp [x] = x"
| "joinSp (x # y # ys) = x @ '' '' @ joinSp (y # ys)"

text \<open>The tokens built from a 2xx response, shared by both refresh functions.\<close>

definition tokensOf :: "string \<Rightarrow> string \<Rightarrow> TokenResponse \<Rightarrow> int \<Rightarrow> ProviderTokens" where
  "tokensOf accessToken refreshToken d now =
     \<lparr>access_token = accessToken,
      refresh_token = Some (case data_refresh_token d of Some r \<Rightarrow> r | None \<Rightarrow> refreshToken),
      expires_at = Some (now + (case data_expires_in d of Some e \<Rightarrow> e | None \<Rightarrow> 3600) * 1000),
      scopes = Some (scopesOf (data_scope d))\<rparr>"

section \<open>Refresh and throttle controller\<close>

datatype RefreshError =
    ProviderReturned nat string
  | NoAccessToken
  | NetworkFailure string

record RefreshResult =
  success :: bool
  tokens :: "ProviderTokens option"
  error :: "RefreshError option"

text \<open>
  \<^verbatim>\<open>refreshProviderToken(refreshToken, config)\<close> of the refresh module; \<open>resp\<close> is the
  outcome of its \<^verbatim>\<open>fetch\<close>, \<open>now\<close> the clock once the response is in.
\<close>

definition refreshProviderToken :: "string \<Rightarrow> FetchResult \<Rightarrow> int \<Rightarrow> RefreshResult" where
  "refreshProviderToken refreshToken resp now =
     (case resp of
        NetworkError msg \<Rightarrow>
          \<lparr>success = False, tokens = None, error = Some (NetworkFailure msg)\<rparr>
      | HttpError status body \<Rightarrow>
          \<lparr>success = False, tokens = None, error = Some (ProviderReturned status (take 100 body))\<rparr>
      | HttpOk d \<Rightarrow>
          (let accessToken = (case data_access_token d of Some a \<Rightarrow> a | None \<Rightarrow> [])
           in if accessToken = []
              then \<lparr>success = False, tokens = None, error = Some NoAccessToken\<rparr>
              else \<lparr>success = True, tokens = Some (tokensOf accessToken refreshToken d now),
                    error = None\<rparr>))"

definition EXPIRY_BUFFER_MS :: int where
  "EXPIRY_BUFFER_MS = 60000"

definition REFRESH_COOLDOWN_MS :: int where
  "REFRESH_COOLDOWN_MS = 30000"

text \<open>
  The module-level \<^verbatim>\<open>recentlyRefreshed\<close> map is part of the state \<open>World\<close>, next to the
  token store.  \<open>fetchLog\<close> records every request sent to the provider's token endpoint,
  by the refresh token it carried.
\<close>

record World =
  store :: MemoryTokenStore
  recentlyRefreshed :: "(string, int) jsmap"
  fetchLog :: "string list"

definition shouldSkipRefresh :: "string \<Rightarrow> int \<Rightarrow> (string, int) jsmap \<Rightarrow> bool" where
  "shouldSkipRefresh rsToken now rr =
     (case map_get rr rsToken of
        None \<Rightarrow> False
      | Some lastRefresh \<Rightarrow> lastRefresh \<noteq> 0 \<and> now - lastRefresh < REFRESH_COOLDOWN_MS)"

definition markRefreshed :: "string \<Rightarrow> int \<Rightarrow> (string, int) jsmap \<Rightarrow> (string, int) jsmap" where
  "markRefreshed rsToken now rr =
     (let rr1 = map_set rsToken now rr
      in if map_size rr1 > 1000
         then filter (\<lambda>e. \<not> (now - snd e > REFRESH_COOLDOWN_MS)) rr1
         else rr1)"

definition isTokenExpiredOrExpiring :: "int option \<Rightarrow> int \<Rightarrow> int \<Rightarrow> bool" where
  "isTokenExpiredOrExpiring expAt bufferMs now =
     (case expAt of
        None \<Rightarrow> False
      | Some e \<Rightarrow> if e = 0 then False else now \<ge> e - bufferMs)"

text \<open>
  \<^verbatim>\<open>ensureFreshToken(rsAccessToken, tokenStore, providerConfig)\<close> on the in-memory store.
  \<open>fetch cfg rt\<close> is the provider's answer to a refresh request made with configuration
  \<open>cfg\<close> and refresh token \<open>rt\<close>.  \<open>t0\<close> is the clock up to the request, \<open>t1\<close> the clock
  once the answer is in.  The in-memory \<^verbatim>\<open>updateByRsRefresh\<close> does not throw, so the
  \<^verbatim>\<open>catch\<close> branch has no counterpart.  The result is \<^verbatim>\<open>{accessToken, wasRefreshed}\<close>.
\<close>

definition ensureFreshToken ::
  "string \<Rightarrow> 'c option \<Rightarrow> ('c \<Rightarrow> string \<Rightarrow> FetchResult) \<Rightarrow> int \<Rightarrow> int \<Rightarrow> World
     \<Rightarrow> (string \<times> bool) \<times> World" where
  "ensureFreshToken rsAccessToken providerConfig fetch t0 t1 w =
     (case getByRsAccess rsAccessToken t0 (store w) of
        (None, s1) \<Rightarrow> (([], False), w\<lparr>store := s1\<rparr>)
      | (Some ref, s1) \<Rightarrow>
          (let w1 = w\<lparr>store := s1\<rparr>;
               record = heap s1 ref;
               stale = ((access_token (provider record), False), w1)
           in if access_token (provider record) = [] then (([], False), w1)
              else if \<not> isTokenExpiredOrExpiring (expires_at (provider record)) EXPIRY_BUFFER_MS t0
              then stale
              else if shouldSkipRefresh rsAccessToken t0 (recentlyRefreshed w1) then stale
              else if \<not> truthy (refresh_token (provider record)) then stale
              else (case providerConfig of
                      None \<Rightarrow> stale
                    | Some cfg \<Rightarrow>
                        (let rt = (case refresh_token (provider record) of Some r \<Rightarrow> r | None \<Rightarrow> []);
                             w2 = w1\<lparr>fetchLog := fetchLog w1 @ [rt]\<rparr>;
                             result = refreshProviderToken rt (fetch cfg rt) t1
                         in case (if success result then tokens result else None) of
                              None \<Rightarrow> ((access_token (provider record), False), w2)
                            | Some tk \<Rightarrow>
                                (let providerRefreshRotated =
                                       (refresh_token tk \<noteq> refresh_token (provider record));
                                     newRsAccess =
                                       (if providerRefreshRotated then None
                                        else Some (rs_access_token record));
                                     s2 = snd (updateByRsRefresh (rs_refresh_token record) tk
                                                 newRsAccess DEFAULT_RS_TOKEN_TTL_MS t1 s1)
                                 in ((access_token tk, True),
                                     w2\<lparr>store := s2,
                                        recentlyRefreshed :=
                                          markRefreshed rsAccessToken t1 (recentlyRefreshed w2)\<rparr>))))))"

section \<open>OAuth flow: token exchange\<close>

datatype TokenInput =
    AuthorizationCode string string
  | RefreshToken string

datatype OAuthError =
    invalid_grant
  | provider_token_expired
  | provider_refresh_failed
  | provider_no_token

text \<open>\<^verbatim>\<open>TokenResult\<close>; \<^verbatim>\<open>token_type\<close> is the constant \<^verbatim>\<open>'bearer'\<close>.\<close>

record TokenResult =
  result_access_token :: string
  result_refresh_token :: string
  token_type :: string
  expires_in :: int
  result_scope :: string

text \<open>
  The flow module's own \<^verbatim>\<open>refreshProviderToken\<close>, which throws where the refresh
  module's returns a failure; a network error is the exception of \<^verbatim>\<open>fetch\<close> itself.
\<close>

definition refreshProviderTokenFlow ::
  "string \<Rightarrow> FetchResult \<Rightarrow> int \<Rightarrow> OAuthError + ProviderTokens" where
  "refreshProviderTokenFlow providerRefreshToken resp now =
     (case resp of
        NetworkError msg \<Rightarrow> Inl provider_refresh_failed
      | HttpError status body \<Rightarrow> Inl provider_refresh_failed
      | HttpOk d \<Rightarrow>
          (let accessToken = (case data_access_token d of Some a \<Rightarrow> a | None \<Rightarrow> [])
           in if accessToken = [] then Inl provider_no_token
              else Inr (tokensOf accessToken providerRefreshToken d now)))"

text \<open>\<^verbatim>\<open>const isExpiringSoon = now >= (rec.provider.expires_at ?? 0) - 60_000\<close>.\<close>

definition isExpiringSoon :: "int \<Rightarrow> ProviderTokens \<Rightarrow> bool" where
  "isExpiringSoon now prov =
     (let providerExpiresAt = (case expires_at prov of Some e \<Rightarrow> e | None \<Rightarrow> 0)
      in now \<ge> providerExpiresAt - 60000)"

text \<open>
  The tail of the \<^verbatim>\<open>refresh_token\<close> grant, from \<^verbatim>\<open>generateOpaqueToken\<close> on: \<open>newAccess\<close> is
  the minted token, \<open>now\<close> the clock at that point.
\<close>

definition finishRefreshGrant ::
  "string \<Rightarrow> ProviderTokens \<Rightarrow> string \<Rightarrow> int \<Rightarrow> World \<Rightarrow> (OAuthError + TokenResult) \<times> World" where
  "finishRefreshGrant refreshToken prov newAccess now w =
     (case updateByRsRefresh refreshToken prov (Some newAccess) DEFAULT_RS_TOKEN_TTL_MS now (store w) of
        (updated, s2) \<Rightarrow>
          (let expiresIn = (case expires_at prov of
                              None \<Rightarrow> 3600
                            | Some e \<Rightarrow> if e = 0 then 3600 else max 1 ((e - now) div 1000));
               sc = (case updated of
                       None \<Rightarrow> []
                     | Some u \<Rightarrow> (case scopes (provider (heap s2 u)) of None \<Rightarrow> [] | Some xs \<Rightarrow> xs))
           in (Inr \<lparr>result_access_token = newAccess, result_refresh_token = refreshToken,
                    token_type = ''bearer'', expires_in = expiresIn, result_scope = joinSp sc\<rparr>,
               w\<lparr>store := s2\<rparr>)))"

text \<open>
  \<^verbatim>\<open>handleToken(input, store, providerConfig?)\<close> on the in-memory store.
  \<open>sha256B64Url\<close> is \<^verbatim>\<open>sha256B64UrlAsync\<close>, the base64url text of the SHA-256 digest,
  computed by the platform's crypto library; \<open>fetch\<close>, \<open>t0\<close> and \<open>t1\<close> are as for
  \<open>ensureFreshToken\<close>; \<open>tokA\<close> and \<open>tokB\<close> are what the first and the second call of
  \<^verbatim>\<open>generateOpaqueToken(24)\<close> return.  \<^verbatim>\<open>storeRsMapping\<close> is given \<open>rsRefresh\<close>, so it does
  not draw a UUID.
\<close>

definition handleToken ::
  "TokenInput \<Rightarrow> 'c option \<Rightarrow> (string \<Rightarrow> string) \<Rightarrow> ('c \<Rightarrow> string \<Rightarrow> FetchResult)
     \<Rightarrow> string \<Rightarrow> string \<Rightarrow> int \<Rightarrow> int \<Rightarrow> World \<Rightarrow> (OAuthError + TokenResult) \<times> World" where
  "handleToken input providerConfig sha256B64Url fetch tokA tokB t0 t1 w =
     (case input of
        RefreshToken refreshToken \<Rightarrow>
          (case getByRsRefresh refreshToken t0 (store w) of
             (None, s1) \<Rightarrow> (Inl invalid_grant, w\<lparr>store := s1\<rparr>)
           | (Some ref, s1) \<Rightarrow>
               (let w1 = w\<lparr>store := s1\<rparr>;
                    rec = heap s1 ref
                in if isExpiringSoon t0 (provider rec) \<and> providerConfig \<noteq> None
                   then (case refresh_token (provider rec) of
                           None \<Rightarrow> (Inl provider_token_expired, w1)
                         | Some rt \<Rightarrow>
                             if rt = [] then (Inl provider_token_expired, w1)
                             else (case providerConfig of
                                     None \<Rightarrow> finishRefreshGrant refreshToken (provider rec) tokA t0 w1
                                   | Some cfg \<Rightarrow>
                                       (let w2 = w1\<lparr>fetchLog := fetchLog w1 @ [rt]\<rparr>
                                        in case refreshProviderTokenFlow rt (fetch cfg rt) t1 of
                                             Inl e \<Rightarrow> (Inl provider_refresh_failed, w2)
                                           | Inr prov \<Rightarrow>
                                               finishRefreshGrant refreshToken prov tokA t1 w2)))
                   else finishRefreshGrant refreshToken (provider rec) tokA t0 w1))
      | AuthorizationCode code codeVerifier \<Rightarrow>
          (case getTxnIdByCode code t0 (store w) of
             (None, s1) \<Rightarrow> (Inl invalid_grant, w\<lparr>store := s1\<rparr>)
           | (Some txnId, s1) \<Rightarrow>
               if txnId = [] then (Inl invalid_grant, w\<lparr>store := s1\<rparr>)
               else (case getTransaction txnId t0 s1 of
                       (None, s2) \<Rightarrow> (Inl invalid_grant, w\<lparr>store := s2\<rparr>)
                     | (Some txn, s2) \<Rightarrow>
                         (let expected = codeChallenge txn;
                              actual = sha256B64Url codeVerifier
                          in if expected \<noteq> actual then (Inl invalid_grant, w\<lparr>store := s2\<rparr>)
                             else
                               (let rsAccess = tokA;
                                    rsRefresh = tokB;
                                    s3 = (case txnProvider txn of
                                            None \<Rightarrow> s2
                                          | Some p \<Rightarrow>
                                              if access_token p \<noteq> []
                                              then snd (storeRsMapping rsAccess p (Some rsRefresh)
                                                          DEFAULT_RS_TOKEN_TTL_MS t0 [] s2)
                                              else s2);
                                    s4 = deleteCode code (deleteTransaction txnId s3);
                                    provScopes = joinSp (case txnProvider txn of
                                                           None \<Rightarrow> []
                                                         | Some p \<Rightarrow>
                                                             (case scopes p of None \<Rightarrow> [] | Some xs \<Rightarrow> xs));
                                    sc = (if provScopes \<noteq> [] then provScopes
                                          else (case scope txn of None \<Rightarrow> [] | Some x \<Rightarrow> x))
                                in (Inr \<lparr>result_access_token = rsAccess,
                                         result_refresh_token = rsRefresh,
                                         token_type = ''bearer'', expires_in = 3600,
                                         result_scope = sc\<rparr>,
                                    w\<lparr>store := s4\<rparr>))))))"

section \<open>The distributed (KV) token store\<close>

text \<open>
  The KV namespace is a map from keys to stored text.  A \<^verbatim>\<open>put\<close> on a key in
  \<open>kvFailing\<close> throws (quota, network) and writes nothing; reads do not fail.  The
  codec (\<^verbatim>\<open>toJson\<close> and \<^verbatim>\<open>encrypt\<close>, \<^verbatim>\<open>decrypt\<close> and \<^verbatim>\<open>fromJson\<close>) is a parameter: \<open>enc\<close>
  gives the stored text of a record, \<open>dec\<close> the record read back from a stored text,
  none when the text does not parse.
\<close>

record KVNamespace =
  kvData :: "(string, string) jsmap"
  kvFailing :: "string \<Rightarrow> bool"

record KvTokenStore =
  kv :: KVNamespace
  fallback :: MemoryTokenStore

datatype KvError = KvWriteFailed

definition putJson ::
  "(RsRecord \<Rightarrow> string) \<Rightarrow> string \<Rightarrow> RsRecord \<Rightarrow> KVNamespace \<Rightarrow> KvError + KVNamespace" where
  "putJson enc key v ns =
     (if kvFailing ns key then Inl KvWriteFailed
      else Inr (ns\<lparr>kvData := map_set key (enc v) (kvData ns)\<rparr>))"

definition getJson :: "(string \<Rightarrow> RsRecord option) \<Rightarrow> string \<Rightarrow> KVNamespace \<Rightarrow> RsRecord option" where
  "getJson dec key ns =
     (case map_get (kvData ns) key of
        None \<Rightarrow> None
      | Some raw \<Rightarrow> if raw = [] then None else dec raw)"

text \<open>
  \<^verbatim>\<open>Promise.all\<close> of two \<^verbatim>\<open>putJson\<close> calls: both writes are started, the first failure
  rejects the whole; a write that went through stays written.
\<close>

definition putBoth ::
  "(RsRecord \<Rightarrow> string) \<Rightarrow> string \<Rightarrow> string \<Rightarrow> RsRecord \<Rightarrow> KVNamespace
     \<Rightarrow> (KvError + unit) \<times> KVNamespace" where
  "putBoth enc key1 key2 v ns =
     (case putJson enc key1 v ns of
        Inl e1 \<Rightarrow> (case putJson enc key2 v ns of
                    Inl e2 \<Rightarrow> (Inl e1, ns)
                  | Inr ns2 \<Rightarrow> (Inl e1, ns2))
      | Inr ns1 \<Rightarrow> (case putJson enc key2 v ns1 of
                     Inl e2 \<Rightarrow> (Inl e2, ns1)
                   | Inr ns2 \<Rightarrow> (Inr (), ns2)))"

text \<open>
  \<^verbatim>\<open>KvTokenStore.storeRsMapping\<close>.  \<open>uuid1\<close> is the UUID drawn for the returned record,
  \<open>uuid2\<close> the one the fallback draws for its own.  The result is a sum so that an
  exception leaving the method would show as \<open>Inl\<close>.
\<close>

definition kvStoreRsMapping ::
  "(RsRecord \<Rightarrow> string) \<Rightarrow> string \<Rightarrow> ProviderTokens \<Rightarrow> string option \<Rightarrow> int \<Rightarrow> string \<Rightarrow> string
     \<Rightarrow> KvTokenStore \<Rightarrow> KvError + (RsRecord \<times> KvTokenStore)" where
  "kvStoreRsMapping enc rsAccess prov rsRefresh now uuid1 uuid2 ks =
     (let rec = \<lparr>rs_access_token = rsAccess,
                 rs_refresh_token = (case rsRefresh of Some s \<Rightarrow> s | None \<Rightarrow> uuid1),
                 provider = prov, created_at = now\<rparr>;
          fb = snd (storeRsMapping rsAccess prov rsRefresh DEFAULT_RS_TOKEN_TTL_MS now uuid2
                      (fallback ks))
      in case putBoth enc (''rs:access:'' @ rs_access_token rec)
                (''rs:refresh:'' @ rs_refresh_token rec) rec (kv ks) of
           (Inl e, ns) \<Rightarrow> Inr (rec, \<lparr>kv = ns, fallback = fb\<rparr>)
         | (Inr u, ns) \<Rightarrow> Inr (rec, \<lparr>kv = ns, fallback = fb\<rparr>))"

text \<open>\<^verbatim>\<open>KvTokenStore.getByRsAccess\<close>: the KV value when there is one, else the fallback's.\<close>

definition kvGetByRsAccess ::
  "(string \<Rightarrow> RsRecord option) \<Rightarrow> string \<Rightarrow> int \<Rightarrow> KvTokenStore
     \<Rightarrow> RsRecord option \<times> KvTokenStore" where
  "kvGetByRsAccess dec rsAccess now ks =
     (case getJson dec (''rs:access:'' @ rsAccess) (kv ks) of
        Some rec \<Rightarrow> (Some rec, ks)
      | None \<Rightarrow>
          (case getByRsAccess rsAccess now (fallback ks) of
             (r, fb) \<Rightarrow> (map_option (\<lambda>a. RsRecord.truncate (heap fb a)) r, ks\<lparr>fallback := fb\<rparr>)))"

section \<open>Concrete stores and provider answers\<close>

text \<open>
  The stores, worlds and provider answers at which the theorems below are instantiated.
  \<open>stubDigest\<close> stands in for the digest function there; the theorems themselves hold
  for every digest function.
\<close>

definition stubDigest :: "string \<Rightarrow> string" where
  "stubDigest v = ''H:'' @ v"

definition provA :: ProviderTokens where
  "provA = \<lparr>access_token = ''AT1'', refresh_token = Some ''RT1'',
            expires_at = Some 100000, scopes = Some [''calendar'']\<rparr>"

definition provNoExpiry :: ProviderTokens where
  "provNoExpiry = \<lparr>access_token = ''AT1'', refresh_token = Some ''RT1'',
                   expires_at = None, scopes = Some [''calendar'']\<rparr>"

definition blankEntry :: RsEntry where
  "blankEntry = \<lparr>rs_access_token = [], rs_refresh_token = [],
                 provider = \<lparr>access_token = [], refresh_token = None, expires_at = None,
                             scopes = None\<rparr>,
                 created_at = 0, expiresAt = 0\<rparr>"

definition emptyStore :: MemoryTokenStore where
  "emptyStore = \<lparr>heap = (\<lambda>_. blankEntry), nextRef = 0, rsAccessMap = [], rsRefreshMap = [],
                 transactions = [], codes = []\<rparr>"

text \<open>One record, stored at clock 1000 with the default TTL.\<close>

definition storeA :: MemoryTokenStore where
  "storeA = \<lparr>heap = (\<lambda>_. blankEntry)
                (0 := \<lparr>rs_access_token = ''A1'', rs_refresh_token = ''R1'', provider = provA,
                        created_at = 1000, expiresAt = 604801000\<rparr>),
             nextRef = 1, rsAccessMap = [(''A1'', 0)], rsRefreshMap = [(''R1'', 0)],
             transactions = [], codes = []\<rparr>"

definition worldA :: World where
  "worldA = \<lparr>store = storeA, recentlyRefreshed = [], fetchLog = []\<rparr>"

text \<open>The same record with provider tokens that carry no expiry.\<close>

definition storeN :: MemoryTokenStore where
  "storeN = \<lparr>heap = (\<lambda>_. blankEntry)
                (0 := \<lparr>rs_access_token = ''A1'', rs_refresh_token = ''R1'',
                        provider = provNoExpiry, created_at = 1000, expiresAt = 604801000\<rparr>),
             nextRef = 1, rsAccessMap = [(''A1'', 0)], rsRefreshMap = [(''R1'', 0)],
             transactions = [], codes = []\<rparr>"

definition worldN :: World where
  "worldN = \<lparr>store = storeN, recentlyRefreshed = [], fetchLog = []\<rparr>"

text \<open>
  Provider answers: a success that rotates the provider refresh token, a success that
  does not send one, and a failure.  The new provider token lives 30 seconds.
\<close>

definition fetchRotating :: "unit \<Rightarrow> string \<Rightarrow> FetchResult" where
  "fetchRotating cfg rt =
     HttpOk \<lparr>data_access_token = Some ''AT2'', data_refresh_token = Some ''RT2'',
            data_expires_in = Some 30, data_scope = Some ''calendar''\<rparr>"

definition fetchKeeping :: "unit \<Rightarrow> string \<Rightarrow> FetchResult" where
  "fetchKeeping cfg rt =
     HttpOk \<lparr>data_access_token = Some ''AT2'', data_refresh_token = None,
            data_expires_in = Some 30, data_scope = Some ''calendar''\<rparr>"

definition fetchFailing :: "unit \<Rightarrow> string \<Rightarrow> FetchResult" where
  "fetchFailing cfg rt = HttpError 500 ''unavailable''"

text \<open>
  A transaction awaiting redemption through code \<^verbatim>\<open>code1\<close>: one with the provider tokens
  attached by the callback, one without (the provider callback never ran).
\<close>

definition txnOf :: "ProviderTokens option \<Rightarrow> Transaction" where
  "txnOf p = \<lparr>codeChallenge = stubDigest ''verifier1'', state = Some ''xyz'', txnCreatedAt = 0,
              scope = Some ''calendar'', sid = None, txnProvider = p\<rparr>"

definition storeT :: "ProviderTokens option \<Rightarrow> MemoryTokenStore" where
  "storeT p = emptyStore
     \<lparr>transactions := [(''txn1'', \<lparr>entryValue = txnOf p, entryExpiresAt = 600000, createdAt = 0\<rparr>)],
      codes := [(''code1'', \<lparr>entryValue = ''txn1'', entryExpiresAt = 600000, createdAt = 0\<rparr>)]\<rparr>"

definition worldT :: "ProviderTokens option \<Rightarrow> World" where
  "worldT p = \<lparr>store = storeT p, recentlyRefreshed = [], fetchLog = []\<rparr>"

text \<open>A KV store whose namespace rejects every write, over an empty fallback.\<close>

definition kvDown :: KvTokenStore where
  "kvDown = \<lparr>kv = \<lparr>kvData = [], kvFailing = (\<lambda>_. True)\<rparr>, fallback = emptyStore\<rparr>"

text \<open>
  A store at capacity: \<open>MAX_RS_RECORDS\<close> records, record \<open>i\<close> created at clock \<open>i\<close>, with
  access token \<^verbatim>\<open>a\<close> and refresh token \<^verbatim>\<open>r\<close> followed by \<open>i\<close> times \<^verbatim>\<open>x\<close>.
\<close>

definition tokN :: "char \<Rightarrow> nat \<Rightarrow> string" where
  "tokN c i = c # replicate i CHR ''x''"

definition fullEntry :: "nat \<Rightarrow> RsEntry" where
  "fullEntry i = \<lparr>rs_access_token = tokN CHR ''a'' i, rs_refresh_token = tokN CHR ''r'' i,
                  provider = provA, created_at = int i, expiresAt = 604800000 + int i\<rparr>"

definition fullStore :: MemoryTokenStore where
  "fullStore = \<lparr>heap = fullEntry, nextRef = MAX_RS_RECORDS,
                rsAccessMap = map (\<lambda>i. (tokN CHR ''a'' i, i)) [0..<MAX_RS_RECORDS],
                rsRefreshMap = map (\<lambda>i. (tokN CHR ''r'' i, i)) [0..<MAX_RS_RECORDS],
                transactions = [], codes = []\<rparr>"

text \<open>
  The refresh-token index is sound when each of its entries leads to an allocated
  record that carries the entry's key as its refresh token.
\<close>

definition refreshIndexOk :: "MemoryTokenStore \<Rightarrow> bool" where
  "refreshIndexOk st =
     list_all (\<lambda>e. snd e < nextRef st \<and> rs_refresh_token (heap st (snd e)) = fst e)
       (rsRefreshMap st)"

section \<open>JavaScript \<^verbatim>\<open>Map\<close>: basic facts\<close>

lemma map_get_delete_same: "map_get (map_delete k m) k = None"
  by (simp add: map_get_def map_delete_def delete_conv')

lemma map_get_delete_other: "k' \<noteq> k \<Longrightarrow> map_get (map_delete k m) k' = map_get m k'"
  by (simp add: map_get_def map_delete_def)

lemma map_get_delete: "map_get (map_delete k m) k' = (if k' = k then None else map_get m k')"
  by (simp add: map_get_delete_same map_get_delete_other)

lemma map_get_set: "map_get (map_set k v m) k' = (if k' = k then Some v else map_get m k')"
  by (simp add: map_get_def map_set_def update_conv')

section \<open>TTL expiry of RS records\<close>

text \<open>
  Claim C7.  Take a record of the in-memory store that is indexed under its access
  token and under its refresh token, and a clock reading \<open>now\<close> at or past the
  \<^verbatim>\<open>expiresAt\<close> stamp that the store set when the record was written.  Then
  \<^verbatim>\<open>getByRsAccess\<close> returns none and leaves a store in which neither the access-token
  entry nor the refresh-token entry exists, so a later \<^verbatim>\<open>getByRsRefresh\<close> (at any clock
  reading \<open>t\<close>) returns none as well; and the same holds with the roles of
  \<^verbatim>\<open>getByRsAccess\<close> and \<^verbatim>\<open>getByRsRefresh\<close> exchanged.
\<close>

theorem rs_ttl_expiry_deletes_both_indices:
  assumes acc: "map_get (rsAccessMap st) (rs_access_token (heap st r)) = Some r"
      and rfr: "map_get (rsRefreshMap st) (rs_refresh_token (heap st r)) = Some r"
      and exp: "now \<ge> expiresAt (heap st r)"
  shows "(let a = rs_access_token (heap st r); f = rs_refresh_token (heap st r);
              viaAccess = getByRsAccess a now st; viaRefresh = getByRsRefresh f now st
          in fst viaAccess = None
           \<and> map_get (rsAccessMap (snd viaAccess)) a = None
           \<and> map_get (rsRefreshMap (snd viaAccess)) f = None
           \<and> fst (getByRsRefresh f t (snd viaAccess)) = None
           \<and> fst viaRefresh = None
           \<and> map_get (rsAccessMap (snd viaRefresh)) a = None
           \<and> map_get (rsRefreshMap (snd viaRefresh)) f = None
           \<and> fst (getByRsAccess a t (snd viaRefresh)) = None)"
  using assms by (simp add: Let_def getByRsAccess_def getByRsRefresh_def map_get_delete)

theorem rs_ttl_expiry_witness:
  "(let viaAccess = getByRsAccess ''A1'' 604801000 storeA;
        viaRefresh = getByRsRefresh ''R1'' 604801000 storeA
    in fst viaAccess = None
     \<and> map_get (rsAccessMap (snd viaAccess)) ''A1'' = None
     \<and> map_get (rsRefreshMap (snd viaAccess)) ''R1'' = None
     \<and> fst (getByRsRefresh ''R1'' 5 (snd viaAccess)) = None
     \<and> fst viaRefresh = None
     \<and> map_get (rsAccessMap (snd viaRefresh)) ''A1'' = None
     \<and> map_get (rsRefreshMap (snd viaRefresh)) ''R1'' = None
     \<and> fst (getByRsAccess ''A1'' 5 (snd viaRefresh)) = None)"
proof -
  have acc: "map_get (rsAccessMap storeA) (rs_access_token (heap storeA 0)) = Some 0"
    by (simp add: storeA_def map_get_def)
  have rfr: "map_get (rsRefreshMap storeA) (rs_refresh_token (heap storeA 0)) = Some 0"
    by (simp add: storeA_def map_get_def)
  have exp: "(604801000::int) \<ge> expiresAt (heap storeA 0)"
    by (simp add: storeA_def)
  have tok: "rs_access_token (heap storeA 0) = ''A1''" "rs_refresh_token (heap storeA 0) = ''R1''"
    by (simp_all add: storeA_def)
  from rs_ttl_expiry_deletes_both_indices [OF acc rfr exp, of 5]
  show ?thesis by (simp add: Let_def tok)
qed

section \<open>Access-token rotation by \<^verbatim>\<open>updateByRsRefresh\<close>\<close>

text \<open>
  Claim C5.  Take a record stored under refresh token \<open>rsRefresh\<close> and a new access
  token: one that is given (non-empty, which is what the method's \<^verbatim>\<open>if (maybeNewRsAccess)\<close>
  tests) and differs from the record's current access token.  After
  \<^verbatim>\<open>updateByRsRefresh(rsRefresh, provider, newRsAccess)\<close>, and while the renewed TTL has
  not run out, \<^verbatim>\<open>getByRsAccess\<close> on the old access token returns none,
  \<^verbatim>\<open>getByRsAccess\<close> on the new one and \<^verbatim>\<open>getByRsRefresh\<close> on \<open>rsRefresh\<close> return the same
  record object, and that record carries the new access token, refresh token
  \<open>rsRefresh\<close> and the new provider tokens.
\<close>

theorem updateByRsRefresh_rotation:
  assumes stored: "map_get (rsRefreshMap st) rsRefresh = Some r"
      and own: "rs_refresh_token (heap st r) = rsRefresh"
      and given: "newRsAccess \<noteq> []"
      and new: "newRsAccess \<noteq> rs_access_token (heap st r)"
      and live: "t < now + ttlMs"
  shows "(let old = rs_access_token (heap st r);
              res = updateByRsRefresh rsRefresh prov (Some newRsAccess) ttlMs now st;
              st' = snd res
          in fst res = Some r
           \<and> fst (getByRsAccess old t st') = None
           \<and> fst (getByRsAccess newRsAccess t st') = Some r
           \<and> fst (getByRsRefresh rsRefresh t st') = Some r
           \<and> rs_access_token (heap st' r) = newRsAccess
           \<and> rs_refresh_token (heap st' r) = rsRefresh
           \<and> provider (heap st' r) = prov)"
  using assms
  by (simp add: Let_def updateByRsRefresh_def getByRsAccess_def getByRsRefresh_def
        map_get_delete map_get_set truthy_def)

theorem updateByRsRefresh_rotation_witness:
  "(let res = updateByRsRefresh ''R1'' provNoExpiry (Some ''A2'') DEFAULT_RS_TOKEN_TTL_MS 2000 storeA;
        st' = snd res
    in fst res = Some 0
     \<and> fst (getByRsAccess ''A1'' 3000 st') = None
     \<and> fst (getByRsAccess ''A2'' 3000 st') = Some 0
     \<and> fst (getByRsRefresh ''R1'' 3000 st') = Some 0
     \<and> rs_access_token (heap st' 0) = ''A2''
     \<and> rs_refresh_token (heap st' 0) = ''R1''
     \<and> provider (heap st' 0) = provNoExpiry)"
proof -
  have stored: "map_get (rsRefreshMap storeA) ''R1'' = Some 0"
    by (simp add: storeA_def map_get_def)
  have own: "rs_refresh_token (heap storeA 0) = ''R1''"
    by (simp add: storeA_def)
  have given: "''A2'' \<noteq> []"
    by simp
  have new: "''A2'' \<noteq> rs_access_token (heap storeA 0)"
    by (simp add: storeA_def)
  have live: "(3000::int) < 2000 + DEFAULT_RS_TOKEN_TTL_MS"
    by (simp add: DEFAULT_RS_TOKEN_TTL_MS_def)
  have old: "rs_access_token (heap storeA 0) = ''A1''"
    by (simp add: storeA_def)
  from updateByRsRefresh_rotation [OF stored own given new live, of provNoExpiry]
  show ?thesis by (simp add: Let_def old)
qed

section \<open>Token exchange: the authorization-code grant\<close>

lemma storeRsMapping_transactions:
  "transactions (snd (storeRsMapping a p rr ttl now u st)) = transactions st"
  by (simp add: storeRsMapping_def Let_def split: option.splits)

text \<open>The authorization-code grant, once the code and the transaction have resolved.\<close>

lemma handleToken_code_resolved:
  assumes "getTxnIdByCode code t0 (store w) = (Some txnId, s1)"
      and "txnId \<noteq> []"
      and "getTransaction txnId t0 s1 = (Some txn, s2)"
  shows "fst (handleToken (AuthorizationCode code v) cfg sha fetch tokA tokB t0 t1 w) =
           (if sha v = codeChallenge txn
            then Inr \<lparr>result_access_token = tokA, result_refresh_token = tokB,
                      token_type = ''bearer'', expires_in = 3600,
                      result_scope =
                        (let ps = joinSp (case txnProvider txn of
                                            None \<Rightarrow> []
                                          | Some p \<Rightarrow> (case scopes p of None \<Rightarrow> [] | Some xs \<Rightarrow> xs))
                         in if ps \<noteq> [] then ps else (case scope txn of None \<Rightarrow> [] | Some x \<Rightarrow> x))\<rparr>
            else Inl invalid_grant)"
  using assms by (simp add: handleToken_def Let_def)

lemma handleToken_code_success_store:
  assumes "handleToken (AuthorizationCode code v) cfg sha fetch tokA tokB t0 t1 w = (Inr res, w')"
  shows "map_get (codes (store w')) code = None"
  using assms
  by (auto simp: handleToken_def Let_def deleteCode_def map_get_delete
      split: prod.splits option.splits if_splits)

lemma handleToken_code_success_txn:
  assumes "handleToken (AuthorizationCode code v) cfg sha fetch tokA tokB t0 t1 w = (Inr res, w')"
      and "fst (getTxnIdByCode code t0 (store w)) = Some txnId"
  shows "map_get (transactions (store w')) txnId = None"
  using assms
  by (auto simp: handleToken_def Let_def deleteCode_def deleteTransaction_def map_get_delete
        storeRsMapping_transactions
      split: prod.splits option.splits if_splits)

lemma handleToken_code_absent:
  assumes "map_get (codes (store w)) code = None"
  shows "fst (handleToken (AuthorizationCode code v) cfg sha fetch tokA tokB t0 t1 w) = Inl invalid_grant"
  using assms by (simp add: handleToken_def getTxnIdByCode_def)

text \<open>
  Claim C2.  When an \<^verbatim>\<open>authorization_code\<close> exchange succeeds, the store it leaves holds
  neither the redeemed code nor the transaction the code stood for, and a second
  exchange presenting the same code fails with \<^verbatim>\<open>invalid_grant\<close>, whatever its verifier,
  configuration, minted tokens and clock.
\<close>

theorem authorization_code_single_use:
  assumes ok: "handleToken (AuthorizationCode code v) cfg sha fetch tokA tokB t0 t1 w = (Inr res, w')"
      and txn: "fst (getTxnIdByCode code t0 (store w)) = Some txnId"
  shows "map_get (codes (store w')) code = None
       \<and> map_get (transactions (store w')) txnId = None
       \<and> fst (handleToken (AuthorizationCode code v') cfg' sha' fetch' tokA' tokB' t0' t1' w')
           = Inl invalid_grant"
  using handleToken_code_success_store [OF ok] handleToken_code_success_txn [OF ok txn]
    handleToken_code_absent [of w' code]
  by simp

text \<open>
  Claim C3.  When the code resolves to a live transaction (the code and the
  transaction are found and not expired; transaction ids are minted non-empty), the
  exchange succeeds if and only if the digest text of the submitted verifier equals the
  transaction's stored challenge, and with any other verifier it fails with
  \<^verbatim>\<open>invalid_grant\<close>.  This holds for every digest function \<open>sha\<close>.
\<close>

theorem pkce_integrity:
  assumes "getTxnIdByCode code t0 (store w) = (Some txnId, s1)"
      and "txnId \<noteq> []"
      and "getTransaction txnId t0 s1 = (Some txn, s2)"
  shows "((\<exists>res. fst (handleToken (AuthorizationCode code v) cfg sha fetch tokA tokB t0 t1 w) = Inr res)
            \<longleftrightarrow> sha v = codeChallenge txn)
       \<and> (sha v \<noteq> codeChallenge txn \<longrightarrow>
            fst (handleToken (AuthorizationCode code v) cfg sha fetch tokA tokB t0 t1 w)
              = Inl invalid_grant)"
  by (simp add: handleToken_code_resolved [OF assms])

lemmas flow_eval = handleToken_def getTxnIdByCode_def getTransaction_def deleteCode_def
  deleteTransaction_def storeRsMapping_def evictOldest_def map_size_def map_get_def map_set_def
  map_delete_def Let_def worldT_def storeT_def txnOf_def emptyStore_def stubDigest_def
  MAX_RS_RECORDS_def DEFAULT_RS_TOKEN_TTL_MS_def provA_def

lemma exchange_at_worldT:
  "fst (handleToken (AuthorizationCode ''code1'' ''verifier1'') (None :: unit option) stubDigest
          fetchFailing ''RSA'' ''RSR'' 5 5 (worldT (Some provA)))
     = Inr \<lparr>result_access_token = ''RSA'', result_refresh_token = ''RSR'',
             token_type = ''bearer'', expires_in = 3600, result_scope = ''calendar''\<rparr>"
  by (simp add: flow_eval)

theorem authorization_code_single_use_witness:
  "(let w' = snd (handleToken (AuthorizationCode ''code1'' ''verifier1'') (None :: unit option)
                    stubDigest fetchFailing ''RSA'' ''RSR'' 5 5 (worldT (Some provA)))
    in map_get (codes (store w')) ''code1'' = None
     \<and> map_get (transactions (store w')) ''txn1'' = None
     \<and> fst (handleToken (AuthorizationCode ''code1'' ''verifier1'') (None :: unit option)
               stubDigest fetchFailing ''RSA2'' ''RSR2'' 6 6 w') = Inl invalid_grant)"
proof -
  have ok: "handleToken (AuthorizationCode ''code1'' ''verifier1'') (None :: unit option) stubDigest
              fetchFailing ''RSA'' ''RSR'' 5 5 (worldT (Some provA))
            = (Inr \<lparr>result_access_token = ''RSA'', result_refresh_token = ''RSR'',
                     token_type = ''bearer'', expires_in = 3600, result_scope = ''calendar''\<rparr>,
               snd (handleToken (AuthorizationCode ''code1'' ''verifier1'') (None :: unit option)
                      stubDigest fetchFailing ''RSA'' ''RSR'' 5 5 (worldT (Some provA))))"
    using exchange_at_worldT by (simp add: prod_eq_iff)
  have txn: "fst (getTxnIdByCode ''code1'' 5 (store (worldT (Some provA)))) = Some ''txn1''"
    by (simp add: flow_eval)
  from authorization_code_single_use [OF ok txn]
  show ?thesis by (simp add: Let_def)
qed

theorem pkce_integrity_witness:
  "(\<exists>res. fst (handleToken (AuthorizationCode ''code1'' ''verifier1'') (None :: unit option)
                 stubDigest fetchFailing ''RSA'' ''RSR'' 5 5 (worldT (Some provA))) = Inr res)
   \<and> fst (handleToken (AuthorizationCode ''code1'' ''verifier2'') (None :: unit option)
            stubDigest fetchFailing ''RSA'' ''RSR'' 5 5 (worldT (Some provA))) = Inl invalid_grant"
proof -
  let ?w = "worldT (Some provA)"
  have c: "getTxnIdByCode ''code1'' 5 (store ?w) = (Some ''txn1'', store ?w)"
    by (simp add: flow_eval)
  have n: "''txn1'' \<noteq> []"
    by simp
  have t: "getTransaction ''txn1'' 5 (store ?w) = (Some (txnOf (Some provA)), store ?w)"
    by (simp add: flow_eval)
  have good: "stubDigest ''verifier1'' = codeChallenge (txnOf (Some provA))"
    by (simp add: txnOf_def)
  have bad: "stubDigest ''verifier2'' \<noteq> codeChallenge (txnOf (Some provA))"
    by (simp add: txnOf_def stubDigest_def)
  from pkce_integrity [OF c n t, where sha = stubDigest and v = "''verifier1''" and cfg = None
        and fetch = fetchFailing and tokA = "''RSA''" and tokB = "''RSR''" and ?t1.0 = 5]
    pkce_integrity [OF c n t, where sha = stubDigest and v = "''verifier2''" and cfg = None
        and fetch = fetchFailing and tokA = "''RSA''" and tokB = "''RSR''" and ?t1.0 = 5]
    good bad
  show ?thesis by simp
qed

text \<open>
  Claim C4 as stated fails: for the transaction of \<open>worldT None\<close>, which holds a PKCE
  challenge and no provider tokens, the exchange with the valid code and the matching
  verifier does return an RS token pair.
\<close>

theorem exchange_without_provider_returns_tokens:
  "fst (handleToken (AuthorizationCode ''code1'' ''verifier1'') (None :: unit option) stubDigest
          fetchFailing ''RSA'' ''RSR'' 5 5 (worldT None))
     = Inr \<lparr>result_access_token = ''RSA'', result_refresh_token = ''RSR'',
             token_type = ''bearer'', expires_in = 3600, result_scope = ''calendar''\<rparr>"
  by (simp add: flow_eval)

lemma getTxnIdByCode_Some_store: "getTxnIdByCode code now st = (Some x, s1) \<Longrightarrow> s1 = st"
  by (auto simp: getTxnIdByCode_def split: option.splits if_splits)

lemma getTransaction_Some_store: "getTransaction txnId now st = (Some x, s1) \<Longrightarrow> s1 = st"
  by (auto simp: getTransaction_def split: option.splits if_splits)

text \<open>
  Claim C4, amended.  For a transaction that holds a PKCE challenge but no attached
  provider tokens, a token exchange presenting a valid code and the matching verifier
  completes: it returns the freshly minted RS token pair and consumes the code and the
  transaction, but it stores no RS mapping, leaving the RS access-token index, the RS
  refresh-token index and the records unchanged.
\<close>

theorem exchange_without_provider_stores_no_mapping:
  assumes c: "getTxnIdByCode code t0 (store w) = (Some txnId, s1)"
      and n: "txnId \<noteq> []"
      and t: "getTransaction txnId t0 s1 = (Some txn, s2)"
      and pkce: "sha v = codeChallenge txn"
      and noprov: "txnProvider txn = None"
  shows "(let out = handleToken (AuthorizationCode code v) cfg sha fetch tokA tokB t0 t1 w;
              st' = store (snd out)
          in fst out = Inr \<lparr>result_access_token = tokA, result_refresh_token = tokB,
                            token_type = ''bearer'', expires_in = 3600,
                            result_scope = (case scope txn of None \<Rightarrow> [] | Some x \<Rightarrow> x)\<rparr>
           \<and> rsAccessMap st' = rsAccessMap (store w)
           \<and> rsRefreshMap st' = rsRefreshMap (store w)
           \<and> heap st' = heap (store w)
           \<and> map_get (codes st') code = None
           \<and> map_get (transactions st') txnId = None)"
proof -
  have s1: "s1 = store w" using c by (rule getTxnIdByCode_Some_store)
  have s2: "s2 = store w" using t s1 getTransaction_Some_store by blast
  show ?thesis
    using c n t pkce noprov unfolding s1 s2
    by (simp add: handleToken_def Let_def deleteCode_def deleteTransaction_def map_get_delete)
qed

theorem exchange_without_provider_witness:
  "(let out = handleToken (AuthorizationCode ''code1'' ''verifier1'') (None :: unit option) stubDigest
                fetchFailing ''RSA'' ''RSR'' 5 5 (worldT None);
        st' = store (snd out)
    in fst out = Inr \<lparr>result_access_token = ''RSA'', result_refresh_token = ''RSR'',
                      token_type = ''bearer'', expires_in = 3600, result_scope = ''calendar''\<rparr>
     \<and> rsAccessMap st' = []
     \<and> rsRefreshMap st' = []
     \<and> map_get (codes st') ''code1'' = None
     \<and> map_get (transactions st') ''txn1'' = None)"
proof -
  let ?w = "worldT None"
  have c: "getTxnIdByCode ''code1'' 5 (store ?w) = (Some ''txn1'', store ?w)"
    by (simp add: flow_eval)
  have n: "''txn1'' \<noteq> []"
    by simp
  have t: "getTransaction ''txn1'' 5 (store ?w) = (Some (txnOf None), store ?w)"
    by (simp add: flow_eval)
  have pkce: "stubDigest ''verifier1'' = codeChallenge (txnOf None)"
    by (simp add: txnOf_def)
  have noprov: "txnProvider (txnOf None) = None"
    by (simp add: txnOf_def)
  have maps: "rsAccessMap (store ?w) = []" "rsRefreshMap (store ?w) = []"
             "scope (txnOf None) = Some ''calendar''"
    by (simp_all add: worldT_def storeT_def emptyStore_def txnOf_def)
  from exchange_without_provider_stores_no_mapping [where sha = stubDigest and v = "''verifier1''",
      OF c n t pkce noprov, where cfg = None and fetch = fetchFailing and tokA = "''RSA''"
        and tokB = "''RSR''" and ?t1.0 = 5]
  show ?thesis by (simp add: Let_def maps)
qed

section \<open>Provider tokens without an expiry\<close>

lemma getByRsAccess_fst_Some: "fst (getByRsAccess a now st) = Some r \<Longrightarrow> getByRsAccess a now st = (Some r, st)"
  by (auto simp: getByRsAccess_def split: option.splits if_splits)

lemma getByRsRefresh_fst_Some: "fst (getByRsRefresh f now st) = Some r \<Longrightarrow> getByRsRefresh f now st = (Some r, st)"
  by (auto simp: getByRsRefresh_def split: option.splits if_splits)

lemma fetchLog_finishRefreshGrant:
  "fetchLog (snd (finishRefreshGrant f prov tok now w)) = fetchLog w"
  by (simp add: finishRefreshGrant_def Let_def split: prod.splits)

text \<open>
  Claim C10.  Take a record that resolves by its access token \<open>a\<close> and its refresh
  token \<open>f\<close> and whose provider tokens carry no \<^verbatim>\<open>expires_at\<close>.  Then
  \<^verbatim>\<open>isTokenExpiredOrExpiring\<close> is false for every buffer and clock, and
  \<^verbatim>\<open>ensureFreshToken\<close> returns the stored provider access token with
  \<^verbatim>\<open>wasRefreshed = false\<close> and leaves the world as it was: no request to the provider, no
  change to the store.  The \<^verbatim>\<open>refresh_token\<close> grant of \<^verbatim>\<open>handleToken\<close>, at any clock reading
  from 0 on, takes the same token for expiring: with a provider configuration it ends in
  \<^verbatim>\<open>provider_token_expired\<close> when the record has no provider refresh token and sends a
  refresh request to the provider when it has one.
\<close>

theorem missing_expiry_proactive_vs_grant:
  assumes acc: "fst (getByRsAccess a t0 (store w)) = Some r"
      and rfr: "fst (getByRsRefresh f t0 (store w)) = Some r"
      and noexp: "expires_at (provider (heap (store w) r)) = None"
      and clock: "0 \<le> t0"
  shows "(let prov = provider (heap (store w) r);
              out = handleToken (RefreshToken f) (Some c) sha fetch' tokA tokB t0 t1 w
          in isTokenExpiredOrExpiring (expires_at prov) bufferMs t = False
           \<and> ensureFreshToken a cfg fetch t0 t1 w = ((access_token prov, False), w)
           \<and> isExpiringSoon t0 prov
           \<and> (case refresh_token prov of
                 None \<Rightarrow> fst out = Inl provider_token_expired
               | Some rt \<Rightarrow>
                   if rt = [] then fst out = Inl provider_token_expired
                   else fetchLog (snd out) = fetchLog w @ [rt]))"
proof -
  let ?prov = "provider (heap (store w) r)"
  have a: "getByRsAccess a t0 (store w) = (Some r, store w)"
    using acc by (rule getByRsAccess_fst_Some)
  have f: "getByRsRefresh f t0 (store w) = (Some r, store w)"
    using rfr by (rule getByRsRefresh_fst_Some)
  have 1: "isTokenExpiredOrExpiring (expires_at ?prov) bufferMs t = False"
    by (simp add: noexp isTokenExpiredOrExpiring_def)
  have 2: "ensureFreshToken a cfg fetch t0 t1 w = ((access_token ?prov, False), w)"
    by (simp add: ensureFreshToken_def a Let_def noexp isTokenExpiredOrExpiring_def)
  have 3: "isExpiringSoon t0 ?prov"
    using clock by (simp add: isExpiringSoon_def noexp)
  have 4: "(case refresh_token ?prov of
                 None \<Rightarrow> fst (handleToken (RefreshToken f) (Some c) sha fetch' tokA tokB t0 t1 w) = Inl provider_token_expired
               | Some rt \<Rightarrow>
                   if rt = [] then fst (handleToken (RefreshToken f) (Some c) sha fetch' tokA tokB t0 t1 w) = Inl provider_token_expired
                   else fetchLog (snd (handleToken (RefreshToken f) (Some c) sha fetch' tokA tokB t0 t1 w)) = fetchLog w @ [rt])"
    using 3 by (simp add: handleToken_def f Let_def fetchLog_finishRefreshGrant split: option.splits sum.splits)
  show ?thesis using 1 2 3 4 by (simp add: Let_def)
qed

theorem missing_expiry_witness:
  "isTokenExpiredOrExpiring None 60000 5000 = False
   \<and> ensureFreshToken ''A1'' (Some ()) fetchRotating 5000 5100 worldN = ((''AT1'', False), worldN)
   \<and> isExpiringSoon 5000 provNoExpiry
   \<and> fetchLog (snd (handleToken (RefreshToken ''R1'') (Some ()) stubDigest fetchRotating
                      ''A2'' ''unused'' 5000 5100 worldN)) = [''RT1'']"
proof -
  have acc: "fst (getByRsAccess ''A1'' 5000 (store worldN)) = Some 0"
    by (simp add: worldN_def storeN_def getByRsAccess_def map_get_def)
  have rfr: "fst (getByRsRefresh ''R1'' 5000 (store worldN)) = Some 0"
    by (simp add: worldN_def storeN_def getByRsRefresh_def map_get_def)
  have prov: "provider (heap (store worldN) 0) = provNoExpiry"
    by (simp add: worldN_def storeN_def)
  have noexp: "expires_at (provider (heap (store worldN) 0)) = None"
    by (simp add: prov provNoExpiry_def)
  have clock: "(0::int) \<le> 5000"
    by simp
  have vals: "access_token provNoExpiry = ''AT1''" "refresh_token provNoExpiry = Some ''RT1''"
             "expires_at provNoExpiry = None" "fetchLog worldN = []"
    by (simp_all add: provNoExpiry_def worldN_def)
  from missing_expiry_proactive_vs_grant [OF acc rfr noexp clock, where bufferMs = 60000
      and t = 5000 and cfg = "Some ()" and fetch = fetchRotating and ?t1.0 = 5100 and c = "()"
      and sha = stubDigest and fetch' = fetchRotating and tokA = "''A2''" and tokB = "''unused''"]
  show ?thesis by (simp add: Let_def prov vals)
qed

section \<open>Proactive refresh: rotation of the RS access token\<close>

lemmas refresh_eval = ensureFreshToken_def getByRsAccess_def getByRsRefresh_def updateByRsRefresh_def
  refreshProviderToken_def tokensOf_def scopesOf_def isSpace_def isTokenExpiredOrExpiring_def
  shouldSkipRefresh_def markRefreshed_def truthy_def map_size_def map_get_def map_set_def
  map_delete_def Let_def EXPIRY_BUFFER_MS_def REFRESH_COOLDOWN_MS_def DEFAULT_RS_TOKEN_TTL_MS_def

text \<open>
  Claim C1, evaluated where it fails.  The record of \<open>worldA\<close> is within the expiry
  buffer at clock 50000 and the provider answers the refresh with a new refresh token
  (\<^verbatim>\<open>RT2\<close> for \<^verbatim>\<open>RT1\<close>).  The refresh succeeds and the new provider tokens are stored, but
  the RS access token is not rotated: the record keeps \<^verbatim>\<open>A1\<close>, the access-token index
  still holds exactly \<^verbatim>\<open>A1\<close>, and \<^verbatim>\<open>A1\<close> still resolves.  The source passes
  \<^verbatim>\<open>undefined\<close> as the new access token in just this case.
\<close>

theorem ensureFreshToken_rotated_refresh_keeps_rs_access:
  "(let out = ensureFreshToken ''A1'' (Some ()) fetchRotating 50000 50100 worldA;
        st' = store (snd out)
    in fst out = (''AT2'', True)
     \<and> refresh_token (provider (heap storeA 0)) = Some ''RT1''
     \<and> refresh_token (provider (heap st' 0)) = Some ''RT2''
     \<and> rs_access_token (heap storeA 0) = ''A1''
     \<and> rs_access_token (heap st' 0) = ''A1''
     \<and> rsAccessMap st' = [(''A1'', 0)]
     \<and> fst (getByRsAccess ''A1'' 50200 st') = Some 0)"
  by (simp add: refresh_eval worldA_def storeA_def provA_def fetchRotating_def)

text \<open>
  In general, no call of \<^verbatim>\<open>ensureFreshToken\<close> changes the RS access token of the
  record it resolves, whatever the provider answers.
\<close>

lemma ensureFreshToken_never_rotates:
  assumes "fst (getByRsAccess a t0 (store w)) = Some r"
      and "map_get (rsRefreshMap (store w)) (rs_refresh_token (heap (store w) r)) = Some r"
  shows "rs_access_token (heap (store (snd (ensureFreshToken a cfg fetch t0 t1 w))) r)
           = rs_access_token (heap (store w) r)"
proof -
  have g: "getByRsAccess a t0 (store w) = (Some r, store w)"
    using assms(1) by (rule getByRsAccess_fst_Some)
  show ?thesis
    using assms(2)
    by (simp add: ensureFreshToken_def g Let_def updateByRsRefresh_def split: option.splits)
qed

section \<open>Refresh throttle\<close>

lemma map_of_filter_keep:
  "map_of xs k = Some v \<Longrightarrow> P (k, v) \<Longrightarrow> map_of (filter P xs) k = Some v"
  by (induction xs) (auto split: if_splits)

lemma markRefreshed_marks: "map_get (markRefreshed a t rr) a = Some t"
proof -
  have "map_of (AList.update a t rr) a = Some t"
    by (simp add: update_conv')
  then show ?thesis
    by (simp add: markRefreshed_def Let_def map_get_def map_set_def map_of_filter_keep
        REFRESH_COOLDOWN_MS_def)
qed

lemma ensureFreshToken_throttled:
  assumes "shouldSkipRefresh a t0 (recentlyRefreshed w)"
  shows "fetchLog (snd (ensureFreshToken a cfg fetch t0 t1 w)) = fetchLog w"
  using assms
  by (simp add: ensureFreshToken_def Let_def split: prod.splits option.splits)

lemma ensureFreshToken_refreshed:
  assumes "snd (fst (ensureFreshToken a cfg fetch t0 t1 w))"
  shows "map_get (recentlyRefreshed (snd (ensureFreshToken a cfg fetch t0 t1 w))) a = Some t1
       \<and> length (fetchLog (snd (ensureFreshToken a cfg fetch t0 t1 w))) = Suc (length (fetchLog w))"
  using assms
  by (auto simp: ensureFreshToken_def Let_def markRefreshed_marks
      split: prod.splits option.splits if_splits)

lemma ensureFreshToken_not_refreshed:
  assumes "\<not> snd (fst (ensureFreshToken a cfg fetch t0 t1 w))"
  shows "recentlyRefreshed (snd (ensureFreshToken a cfg fetch t0 t1 w)) = recentlyRefreshed w"
  using assms
  by (auto simp: ensureFreshToken_def Let_def split: prod.splits option.splits if_splits)

lemma ensureFreshToken_failed_call:
  assumes nr: "\<not> snd (fst (ensureFreshToken a cfg fetch t0 t1 w))"
      and called: "fetchLog (snd (ensureFreshToken a cfg fetch t0 t1 w)) \<noteq> fetchLog w"
  shows "\<exists>r rt. map_get (rsAccessMap (store w)) a = Some r
              \<and> access_token (provider (heap (store w) r)) \<noteq> []
              \<and> isTokenExpiredOrExpiring (expires_at (provider (heap (store w) r))) EXPIRY_BUFFER_MS t0
              \<and> \<not> shouldSkipRefresh a t0 (recentlyRefreshed w)
              \<and> refresh_token (provider (heap (store w) r)) = Some rt \<and> rt \<noteq> []
              \<and> snd (ensureFreshToken a cfg fetch t0 t1 w) = w\<lparr>fetchLog := fetchLog w @ [rt]\<rparr>"
  using assms
  by (auto simp: ensureFreshToken_def Let_def getByRsAccess_def truthy_def
      split: prod.splits option.splits if_splits)

lemma isTokenExpiredOrExpiring_mono:
  "isTokenExpiredOrExpiring e b t \<Longrightarrow> t \<le> t' \<Longrightarrow> isTokenExpiredOrExpiring e b t'"
  by (auto simp: isTokenExpiredOrExpiring_def split: option.splits if_splits)

lemma shouldSkipRefresh_mono:
  "\<not> shouldSkipRefresh a t rr \<Longrightarrow> t \<le> t' \<Longrightarrow> \<not> shouldSkipRefresh a t' rr"
  by (auto simp: shouldSkipRefresh_def split: option.splits)

lemma ensureFreshToken_failed_retries:
  assumes nr: "\<not> snd (fst (ensureFreshToken a cfg fetch t0 t1 w))"
      and called: "fetchLog (snd (ensureFreshToken a cfg fetch t0 t1 w)) \<noteq> fetchLog w"
      and mono: "t0 \<le> t0'"
      and live: "fst (getByRsAccess a t0' (store w)) \<noteq> None"
  shows "length (fetchLog (snd (ensureFreshToken a (Some c2) fetch' t0' t1'
                                  (snd (ensureFreshToken a cfg fetch t0 t1 w)))))
           = Suc (length (fetchLog (snd (ensureFreshToken a cfg fetch t0 t1 w))))"
proof -
  from ensureFreshToken_failed_call [OF nr called]
  obtain r rt where
        m: "map_get (rsAccessMap (store w)) a = Some r"
    and at: "access_token (provider (heap (store w) r)) \<noteq> []"
    and ex: "isTokenExpiredOrExpiring (expires_at (provider (heap (store w) r))) EXPIRY_BUFFER_MS t0"
    and ns: "\<not> shouldSkipRefresh a t0 (recentlyRefreshed w)"
    and rt: "refresh_token (provider (heap (store w) r)) = Some rt" "rt \<noteq> []"
    and w1: "snd (ensureFreshToken a cfg fetch t0 t1 w) = w\<lparr>fetchLog := fetchLog w @ [rt]\<rparr>"
    by blast
  have g: "getByRsAccess a t0' (store w) = (Some r, store w)"
    using m live by (auto simp: getByRsAccess_def split: if_splits)
  have ex': "isTokenExpiredOrExpiring (expires_at (provider (heap (store w) r))) EXPIRY_BUFFER_MS t0'"
    using ex mono by (rule isTokenExpiredOrExpiring_mono)
  have ns': "\<not> shouldSkipRefresh a t0' (recentlyRefreshed w)"
    using ns mono by (rule shouldSkipRefresh_mono)
  show ?thesis
    unfolding w1
    using g at ex' ns' rt
    by (simp add: ensureFreshToken_def Let_def truthy_def split: option.splits)
qed

text \<open>
  Claim C8.  Let a first call of \<^verbatim>\<open>ensureFreshToken\<close> for RS access token \<open>a\<close> be
  followed by a second call for the same token.  If the first call refreshed
  (\<^verbatim>\<open>wasRefreshed\<close>), it made exactly one request to the provider, and a second call
  whose clock \<open>t0'\<close> is less than the cooldown after the first call's marking time \<open>t1\<close>
  (a real clock reading, not 0) makes none.  If the first call did not refresh, it left
  the cooldown map as it was; and if it had sent a request to the provider (which
  then failed), the second call, made at a later clock with a provider configuration
  while the record is still stored, sends a request again.
\<close>

theorem refresh_cooldown_marked_only_on_success:
  "(let out1 = ensureFreshToken a cfg fetch t0 t1 w; w1 = snd out1;
        w2 = snd (ensureFreshToken a cfg2 fetch2 t0' t1' w1)
    in (snd (fst out1) \<and> t1 \<noteq> 0 \<and> t0' - t1 < REFRESH_COOLDOWN_MS \<longrightarrow>
          length (fetchLog w1) = Suc (length (fetchLog w)) \<and> fetchLog w2 = fetchLog w1)
     \<and> (\<not> snd (fst out1) \<longrightarrow> recentlyRefreshed w1 = recentlyRefreshed w)
     \<and> (\<not> snd (fst out1) \<and> fetchLog w1 \<noteq> fetchLog w \<and> t0 \<le> t0' \<and> cfg2 \<noteq> None
          \<and> fst (getByRsAccess a t0' (store w)) \<noteq> None \<longrightarrow>
          length (fetchLog w2) = Suc (length (fetchLog w1))))"
proof -
  let ?out1 = "ensureFreshToken a cfg fetch t0 t1 w"
  let ?w1 = "snd ?out1"
  let ?w2 = "snd (ensureFreshToken a cfg2 fetch2 t0' t1' ?w1)"
  have A: "length (fetchLog ?w1) = Suc (length (fetchLog w)) \<and> fetchLog ?w2 = fetchLog ?w1"
    if ok: "snd (fst ?out1)" and nz: "t1 \<noteq> 0" and win: "t0' - t1 < REFRESH_COOLDOWN_MS"
  proof -
    from ensureFreshToken_refreshed [OF ok]
    have mark: "map_get (recentlyRefreshed ?w1) a = Some t1"
      and len: "length (fetchLog ?w1) = Suc (length (fetchLog w))"
      by simp_all
    have "shouldSkipRefresh a t0' (recentlyRefreshed ?w1)"
      using mark nz win by (simp add: shouldSkipRefresh_def)
    then have "fetchLog ?w2 = fetchLog ?w1"
      by (rule ensureFreshToken_throttled)
    with len show ?thesis by simp
  qed
  have B: "recentlyRefreshed ?w1 = recentlyRefreshed w" if "\<not> snd (fst ?out1)"
    using that by (rule ensureFreshToken_not_refreshed)
  have C: "length (fetchLog ?w2) = Suc (length (fetchLog ?w1))"
    if "\<not> snd (fst ?out1)" "fetchLog ?w1 \<noteq> fetchLog w" "t0 \<le> t0'" "cfg2 \<noteq> None"
       "fst (getByRsAccess a t0' (store w)) \<noteq> None"
  proof -
    from that(4) obtain c2 where c2: "cfg2 = Some c2" by blast
    show ?thesis
      unfolding c2 using that(1,2,3,5) by (rule ensureFreshToken_failed_retries)
  qed
  show ?thesis
    using A B C by (simp add: Let_def)
qed

lemmas worldA_eval = refresh_eval worldA_def storeA_def provA_def fetchKeeping_def
  fetchFailing_def

theorem refresh_cooldown_witness:
  "(let w1 = snd (ensureFreshToken ''A1'' (Some ()) fetchKeeping 50000 50100 worldA);
        w2 = snd (ensureFreshToken ''A1'' (Some ()) fetchKeeping 60000 60100 w1)
    in length (fetchLog w1) = Suc (length (fetchLog worldA)) \<and> fetchLog w2 = fetchLog w1)
   \<and> (let w1 = snd (ensureFreshToken ''A1'' (Some ()) fetchFailing 50000 50100 worldA);
            w2 = snd (ensureFreshToken ''A1'' (Some ()) fetchFailing 50200 50300 w1)
        in recentlyRefreshed w1 = recentlyRefreshed worldA
         \<and> length (fetchLog w2) = Suc (length (fetchLog w1)))"
proof -
  have ok: "snd (fst (ensureFreshToken ''A1'' (Some ()) fetchKeeping 50000 50100 worldA))"
    by (simp add: worldA_eval)
  have nz: "(50100::int) \<noteq> 0"
    by simp
  have win: "(60000::int) - 50100 < REFRESH_COOLDOWN_MS"
    by (simp add: REFRESH_COOLDOWN_MS_def)
  have failed: "\<not> snd (fst (ensureFreshToken ''A1'' (Some ()) fetchFailing 50000 50100 worldA))"
    by (simp add: worldA_eval)
  have called: "fetchLog (snd (ensureFreshToken ''A1'' (Some ()) fetchFailing 50000 50100 worldA))
                  \<noteq> fetchLog worldA"
    by (simp add: worldA_eval)
  have mono: "(50000::int) \<le> 50200"
    by simp
  have cfg: "Some () \<noteq> None"
    by simp
  have live: "fst (getByRsAccess ''A1'' 50200 (store worldA)) \<noteq> None"
    by (simp add: worldA_eval)
  from refresh_cooldown_marked_only_on_success [where a = "''A1''" and cfg = "Some ()"
      and fetch = fetchKeeping and ?t0.0 = 50000 and ?t1.0 = 50100 and w = worldA
      and t0' = 60000 and ?cfg2.0 = "Some ()" and ?fetch2.0 = fetchKeeping and t1' = 60100]
    refresh_cooldown_marked_only_on_success [where a = "''A1''" and cfg = "Some ()"
      and fetch = fetchFailing and ?t0.0 = 50000 and ?t1.0 = 50100 and w = worldA
      and t0' = 50200 and ?cfg2.0 = "Some ()" and ?fetch2.0 = fetchFailing and t1' = 50300]
    ok nz win failed called mono cfg live
  show ?thesis by (simp add: Let_def)
qed

text \<open>
  In that witness the token stored by the first call is itself within the expiry buffer
  at the time of the second call, which returns it without refreshing.
\<close>

lemma second_call_is_near_expiry:
  "(let w1 = snd (ensureFreshToken ''A1'' (Some ()) fetchKeeping 50000 50100 worldA)
    in isTokenExpiredOrExpiring (expires_at (provider (heap (store w1) 0))) EXPIRY_BUFFER_MS 60000
     \<and> fst (ensureFreshToken ''A1'' (Some ()) fetchKeeping 60000 60100 w1) = (''AT2'', False))"
  by (simp add: worldA_eval)

section \<open>Degradation of the KV store\<close>

lemma storeRsMapping_resolves:
  "(let out = storeRsMapping a p rr ttl now u st; r = fst out; st' = snd out
    in map_get (rsAccessMap st') a = Some r
     \<and> rs_access_token (heap st' r) = a
     \<and> provider (heap st' r) = p
     \<and> expiresAt (heap st' r) = now + ttl)"
  by (simp add: storeRsMapping_def Let_def map_get_set split: option.splits)

lemma storeRsMapping_new_record:
  assumes "(case rr of None \<Rightarrow> True | Some s \<Rightarrow> map_get (rsRefreshMap st) s = None)"
  shows "(let out = storeRsMapping a p rr ttl now u st
          in heap (snd out) (fst out) =
               \<lparr>rs_access_token = a,
                rs_refresh_token = (case rr of Some s \<Rightarrow> s | None \<Rightarrow> u),
                provider = p, created_at = now, expiresAt = now + ttl\<rparr>)"
  using assms by (simp add: storeRsMapping_def Let_def split: option.splits)

lemma putBoth_all_failing:
  "\<forall>k. kvFailing ns k \<Longrightarrow> putBoth enc k1 k2 v ns = (Inl KvWriteFailed, ns)"
  by (simp add: putBoth_def putJson_def)

text \<open>
  Claim C6.  Let every write to the KV namespace fail, let the namespace hold no
  readable value under the access token's key (nothing could be written), and let the
  lookup come before the TTL runs out.  Then \<^verbatim>\<open>KvTokenStore.storeRsMapping\<close> does not
  raise: it returns the record made of the given access token, refresh token and
  provider tokens, and leaves the KV namespace as it was and the fallback with the
  mapping stored.  A following \<^verbatim>\<open>getByRsAccess\<close> with the returned access token finds a
  record through the fallback, with that access token and those provider tokens; it is
  the returned record itself when the refresh token was given and not yet known to the
  fallback.
\<close>

theorem kv_store_degrades_to_fallback:
  assumes down: "\<forall>k. kvFailing (kv ks) k"
      and absent: "getJson dec (''rs:access:'' @ rsAccess) (kv ks) = None"
      and live: "t < now + DEFAULT_RS_TOKEN_TTL_MS"
  shows "(let rec = \<lparr>rs_access_token = rsAccess,
                     rs_refresh_token = (case rsRefresh of Some s \<Rightarrow> s | None \<Rightarrow> uuid1),
                     provider = prov, created_at = now\<rparr>;
              fb = snd (storeRsMapping rsAccess prov rsRefresh DEFAULT_RS_TOKEN_TTL_MS now uuid2
                          (fallback ks));
              ks' = \<lparr>kv = kv ks, fallback = fb\<rparr>
          in kvStoreRsMapping enc rsAccess prov rsRefresh now uuid1 uuid2 ks = Inr (rec, ks')
           \<and> fst (getByRsAccess rsAccess t fb) \<noteq> None
           \<and> (case fst (kvGetByRsAccess dec rsAccess t ks') of
                 None \<Rightarrow> False
               | Some found \<Rightarrow>
                   rs_access_token found = rsAccess \<and> provider found = prov
                 \<and> (case rsRefresh of
                       None \<Rightarrow> True
                     | Some s \<Rightarrow>
                         map_get (rsRefreshMap (fallback ks)) s = None \<longrightarrow> found = rec)))"
proof -
  let ?out = "storeRsMapping rsAccess prov rsRefresh DEFAULT_RS_TOKEN_TTL_MS now uuid2 (fallback ks)"
  let ?fb = "snd ?out"
  let ?r = "fst ?out"
  have res: "map_get (rsAccessMap ?fb) rsAccess = Some ?r"
            "rs_access_token (heap ?fb ?r) = rsAccess"
            "provider (heap ?fb ?r) = prov"
            "expiresAt (heap ?fb ?r) = now + DEFAULT_RS_TOKEN_TTL_MS"
    using storeRsMapping_resolves [of rsAccess prov rsRefresh DEFAULT_RS_TOKEN_TTL_MS now uuid2 "fallback ks"]
    by (simp_all add: Let_def)
  have get: "getByRsAccess rsAccess t ?fb = (Some ?r, ?fb)"
    using res live by (simp add: getByRsAccess_def)
  have store: "kvStoreRsMapping enc rsAccess prov rsRefresh now uuid1 uuid2 ks
                 = Inr (\<lparr>rs_access_token = rsAccess,
                         rs_refresh_token = (case rsRefresh of Some s \<Rightarrow> s | None \<Rightarrow> uuid1),
                         provider = prov, created_at = now\<rparr>, \<lparr>kv = kv ks, fallback = ?fb\<rparr>)"
    by (simp add: kvStoreRsMapping_def Let_def putBoth_all_failing [OF down])
  have kvget: "fst (kvGetByRsAccess dec rsAccess t \<lparr>kv = kv ks, fallback = ?fb\<rparr>)
                 = Some (RsRecord.truncate (heap ?fb ?r))"
    using absent get by (simp add: kvGetByRsAccess_def)
  have same: "RsRecord.truncate (heap ?fb ?r) =
                \<lparr>rs_access_token = rsAccess, rs_refresh_token = s, provider = prov, created_at = now\<rparr>"
    if "rsRefresh = Some s" "map_get (rsRefreshMap (fallback ks)) s = None" for s
    using that
      storeRsMapping_new_record [where rr = rsRefresh and st = "fallback ks" and a = rsAccess
        and p = prov and ttl = DEFAULT_RS_TOKEN_TTL_MS and now = now and u = uuid2]
    by (simp add: Let_def RsRecord.truncate_def)
  show ?thesis
    using store get kvget res same
    by (simp add: Let_def RsRecord.truncate_def split: option.splits)
qed

theorem kv_store_degrades_witness:
  "(let rec = \<lparr>rs_access_token = ''A1'', rs_refresh_token = ''R1'', provider = provA,
               created_at = 1000\<rparr>;
        fb = snd (storeRsMapping ''A1'' provA (Some ''R1'') DEFAULT_RS_TOKEN_TTL_MS 1000 ''u2''
                    emptyStore);
        ks' = \<lparr>kv = kv kvDown, fallback = fb\<rparr>
    in kvStoreRsMapping (\<lambda>r. ''json'') ''A1'' provA (Some ''R1'') 1000 ''u1'' ''u2'' kvDown
         = Inr (rec, ks')
     \<and> fst (getByRsAccess ''A1'' 2000 fb) \<noteq> None
     \<and> fst (kvGetByRsAccess (\<lambda>s. None) ''A1'' 2000 ks') = Some rec)"
proof -
  have down: "\<forall>k. kvFailing (kv kvDown) k"
    by (simp add: kvDown_def)
  have absent: "getJson (\<lambda>s. None) (''rs:access:'' @ ''A1'') (kv kvDown) = None"
    by (simp add: getJson_def kvDown_def map_get_def)
  have live: "(2000::int) < 1000 + DEFAULT_RS_TOKEN_TTL_MS"
    by (simp add: DEFAULT_RS_TOKEN_TTL_MS_def)
  have fresh: "map_get (rsRefreshMap (fallback kvDown)) ''R1'' = None"
    by (simp add: kvDown_def emptyStore_def map_get_def)
  have fb: "fallback kvDown = emptyStore"
    by (simp add: kvDown_def)
  from kv_store_degrades_to_fallback [OF down absent live, where enc = "\<lambda>r. ''json''"
      and prov = provA and rsRefresh = "Some ''R1''" and ?uuid1.0 = "''u1''" and ?uuid2.0 = "''u2''"]
    fresh
  show ?thesis by (simp add: Let_def fb split: option.splits)
qed

section \<open>Eviction at capacity\<close>

lemma map_get_fold_delete:
  "map_get (fold (\<lambda>e acc. map_delete (fst e) acc) es m) k
     = (if k \<in> fst ` set es then None else map_get m k)"
  by (induction es arbitrary: m) (auto simp: map_get_delete)

lemma map_get_evictOldest:
  assumes "maxSize \<le> map_size m"
  shows "map_get (evictOldest createdOf m maxSize n) k
           = (if k \<in> fst ` set (take n (sort_key (\<lambda>e. createdOf (snd e)) m)) then None
              else map_get m k)"
  using assms by (simp add: evictOldest_def Let_def map_get_fold_delete)

lemma evicted_are_oldest:
  assumes "e \<in> set (take n (sort_key f m))" and "e' \<in> set (drop n (sort_key f m))"
  shows "f e \<le> f e'"
proof -
  have "sorted (map f (take n (sort_key f m) @ drop n (sort_key f m)))"
    by simp
  then show ?thesis
    using assms unfolding map_append sorted_append by auto
qed

lemma refreshIndexOk_entry:
  "refreshIndexOk st \<Longrightarrow> map_get (rsRefreshMap st) k = Some r
     \<Longrightarrow> r < nextRef st \<and> rs_refresh_token (heap st r) = k"
proof -
  assume ok: "refreshIndexOk st" and "map_get (rsRefreshMap st) k = Some r"
  then have "(k, r) \<in> set (rsRefreshMap st)"
    by (simp add: map_get_def map_of_SomeD)
  with ok show ?thesis
    by (force simp: refreshIndexOk_def list_all_iff)
qed

text \<open>
  Claim C9.  Let the access-token map hold \<open>MAX_RS_RECORDS\<close> entries or more when
  \<^verbatim>\<open>storeRsMapping\<close> is called, and let \<open>(k, r)\<close> be one of the first ten entries in
  creation order.  The eviction step removes exactly the keys of these ten entries from
  the access-token map, there are ten of them, and none of the entries that stay is
  older.  The refresh-token map loses no key.  So, for an evicted record that is
  not expired and is indexed by its refresh token in a sound refresh index, and with
  new tokens that are not the evicted record's own, after the call \<^verbatim>\<open>getByRsAccess\<close> on
  its access token returns none while \<^verbatim>\<open>getByRsRefresh\<close> on its refresh token still
  returns the record, unchanged.
\<close>

theorem eviction_leaves_refresh_index:
  assumes full: "MAX_RS_RECORDS \<le> map_size (rsAccessMap st)"
      and evicted: "(k, r) \<in> set (take 10 (sort_key (\<lambda>e. created_at (heap st (snd e))) (rsAccessMap st)))"
      and fresh: "k \<noteq> rsAccess"
      and idx: "refreshIndexOk st"
      and own: "map_get (rsRefreshMap st) (rs_refresh_token (heap st r)) = Some r"
      and other: "(case rsRefresh of Some s \<Rightarrow> s | None \<Rightarrow> uuid) \<noteq> rs_refresh_token (heap st r)"
      and live: "t < expiresAt (heap st r)"
  shows "(let st' = snd (storeRsMapping rsAccess prov rsRefresh ttlMs now uuid st)
          in (\<forall>x. map_get (evictOldest (\<lambda>a. created_at (heap st a)) (rsAccessMap st) MAX_RS_RECORDS 10) x
                  = (if x \<in> fst ` set (take 10 (sort_key (\<lambda>e. created_at (heap st (snd e)))
                                                  (rsAccessMap st)))
                     then None else map_get (rsAccessMap st) x))
           \<and> fst (getByRsAccess k t st') = None
           \<and> fst (getByRsRefresh (rs_refresh_token (heap st r)) t st') = Some r
           \<and> heap st' r = heap st r
           \<and> fst ` set (rsRefreshMap st) \<subseteq> fst ` set (rsRefreshMap st')
           \<and> length (take 10 (sort_key (\<lambda>e. created_at (heap st (snd e))) (rsAccessMap st))) = 10
           \<and> (\<forall>e' \<in> set (drop 10 (sort_key (\<lambda>e. created_at (heap st (snd e))) (rsAccessMap st))).
                 created_at (heap st r) \<le> created_at (heap st (snd e'))))"
proof -
  let ?f = "rs_refresh_token (heap st r)"
  let ?ev = "evictOldest (\<lambda>a. created_at (heap st a)) (rsAccessMap st) MAX_RS_RECORDS 10"
  have ev: "map_get ?ev x
              = (if x \<in> fst ` set (take 10 (sort_key (\<lambda>e. created_at (heap st (snd e)))
                                              (rsAccessMap st)))
                 then None else map_get (rsAccessMap st) x)" for x
    using full by (rule map_get_evictOldest)
  have kin: "k \<in> fst ` set (take 10 (sort_key (\<lambda>e. created_at (heap st (snd e))) (rsAccessMap st)))"
    using evicted by force
  have gone: "map_get ?ev k = None"
    using ev [of k] kin by simp
  have rlt: "r < nextRef st"
    using refreshIndexOk_entry [OF idx own] by simp
  have ex: "existing \<noteq> r" if "map_get (rsRefreshMap st) s = Some existing"
      "s \<noteq> ?f" for s existing
    using refreshIndexOk_entry [OF idx that(1)] that(2) by auto
  have ten: "length (take 10 (sort_key (\<lambda>e. created_at (heap st (snd e))) (rsAccessMap st))) = 10"
    using full by (simp add: map_size_def MAX_RS_RECORDS_def)
  have oldest: "created_at (heap st r) \<le> created_at (heap st (snd e'))"
    if "e' \<in> set (drop 10 (sort_key (\<lambda>e. created_at (heap st (snd e))) (rsAccessMap st)))" for e'
    using evicted_are_oldest [OF evicted that] by simp
  show ?thesis
    using ev gone fresh own other live rlt ex ten oldest
    apply (simp add: Let_def storeRsMapping_def getByRsAccess_def getByRsRefresh_def
        map_get_set map_get_delete split: option.splits)
    apply (auto simp: map_set_def dom_update)
    done
qed

text \<open>The store \<open>fullStore\<close> is at capacity; its oldest record is record 0.\<close>

lemma fullStore_sorted:
  "sort_key (\<lambda>e. created_at (heap fullStore (snd e))) (rsAccessMap fullStore) = rsAccessMap fullStore"
proof (rule sort_key_id_if_sorted)
  have "map (\<lambda>e. created_at (heap fullStore (snd e))) (rsAccessMap fullStore)
          = map int [0..<MAX_RS_RECORDS]"
    by (simp add: fullStore_def fullEntry_def o_def)
  moreover have "sorted (map int [0..<MAX_RS_RECORDS])"
    by (simp add: sorted_map sorted_wrt_iff_nth_less)
  ultimately show "sorted (map (\<lambda>e. created_at (heap fullStore (snd e))) (rsAccessMap fullStore))"
    by simp
qed

lemma fullStore_first_ten:
  "take 10 (rsAccessMap fullStore) = map (\<lambda>i. (tokN CHR ''a'' i, i)) [0..<10]"
proof -
  have "0 + 10 \<le> MAX_RS_RECORDS"
    by (simp add: MAX_RS_RECORDS_def)
  then have "take 10 [0..<MAX_RS_RECORDS] = [0..<0 + 10]"
    by (rule take_upt)
  then show ?thesis
    by (simp add: fullStore_def take_map)
qed

lemma fullStore_index: "refreshIndexOk fullStore"
  by (simp add: refreshIndexOk_def fullStore_def fullEntry_def list_all_iff)

lemma fullStore_refresh_first: "map_get (rsRefreshMap fullStore) ''r'' = Some 0"
proof -
  have "0 < MAX_RS_RECORDS"
    by (simp add: MAX_RS_RECORDS_def)
  then have "[0..<MAX_RS_RECORDS] = 0 # [Suc 0..<MAX_RS_RECORDS]"
    by (rule upt_conv_Cons)
  then show ?thesis
    by (simp add: fullStore_def map_get_def tokN_def)
qed

theorem eviction_witness:
  "(let st' = snd (storeRsMapping ''new'' provA (Some ''newr'') DEFAULT_RS_TOKEN_TTL_MS 20000 ''u''
                     fullStore)
    in fst (getByRsAccess ''a'' 20001 st') = None
     \<and> fst (getByRsRefresh ''r'' 20001 st') = Some 0
     \<and> heap st' 0 = heap fullStore 0)"
proof -
  have full: "MAX_RS_RECORDS \<le> map_size (rsAccessMap fullStore)"
    by (simp add: fullStore_def map_size_def)
  have evicted: "(''a'', 0) \<in> set (take 10 (sort_key (\<lambda>e. created_at (heap fullStore (snd e)))
                                             (rsAccessMap fullStore)))"
    unfolding fullStore_sorted fullStore_first_ten by (simp add: tokN_def image_iff)
  have fresh: "''a'' \<noteq> ''new''"
    by simp
  have tok: "rs_refresh_token (heap fullStore 0) = ''r''" "heap fullStore 0 = fullEntry 0"
    by (simp_all add: fullStore_def fullEntry_def tokN_def)
  have own: "map_get (rsRefreshMap fullStore) (rs_refresh_token (heap fullStore 0)) = Some 0"
    unfolding tok(1) by (rule fullStore_refresh_first)
  have other: "(case Some ''newr'' of Some s \<Rightarrow> s | None \<Rightarrow> ''u'')
                 \<noteq> rs_refresh_token (heap fullStore 0)"
    unfolding tok(1) by simp
  have live: "(20001::int) < expiresAt (heap fullStore 0)"
    by (simp add: fullStore_def fullEntry_def)
  from eviction_leaves_refresh_index [OF full evicted fresh fullStore_index own other live,
      where prov = provA and ttlMs = DEFAULT_RS_TOKEN_TTL_MS and now = 20000]
  show ?thesis by (simp add: Let_def tok(1))
qed

end
